theory Spec2Isabelle
  imports Main "HOL-Library.Sublist" "HOL-Library.Multiset" "HOL-Library.Char_ord"
    "HOL-Library.List_Lexorder" "HOL-Library.Product_Lexorder"
begin

section \<open>Python values shared by the three modules\<close>

text \<open>
  The exceptions the modelled code can raise. A function that can raise returns
  \<open>error + 'a\<close>, with \<open>Inl\<close> for the exception.
\<close>

datatype error =
  KeyError | IndexError | AttributeError | UnboundLocalError | TypeError
  | RuntimeError | StopIteration | UnicodeDecodeError | JSONDecodeError | RecursionError

text \<open>
  A local variable or an instance attribute that has an annotation but may never have been
  assigned: reading it while \<open>Unassigned\<close> raises (\<open>UnboundLocalError\<close> for a
  local, \<open>AttributeError\<close> for an attribute).
\<close>

datatype 'a slot = Unassigned | Assigned 'a

text \<open>
  \<open>EntryType\<close> is \<open>Dict[str, str]\<close>. A Python \<open>str\<close> is modelled by its UTF-8
  encoding, a \<open>bytes\<close> value by its bytes; both are lists of 8-bit characters.
\<close>

type_synonym entry = "string \<Rightarrow> string option"
type_synonym bytes = "char list"

subsection \<open>String methods used by the code\<close>

text \<open>
  \<open>s.strip()\<close> removes the white space at both ends. The white-space characters of a
  \<open>str\<close> are U+0009 to U+000D, U+001C to U+0020, U+0085, U+00A0, U+1680, U+2000 to
  U+200A, U+2028, U+2029, U+202F, U+205F and U+3000; \<open>whitespace\<close> lists their UTF-8
  encodings. In UTF-8 no encoding of a character is the beginning or the end of the
  encoding of another, so removing these byte sequences from both ends removes exactly
  these characters.
\<close>

definition whitespace :: "string list" where
  "whitespace =
     [[CHR 0x09], [CHR 0x0A], [CHR 0x0B], [CHR 0x0C], [CHR 0x0D],
      [CHR 0x1C], [CHR 0x1D], [CHR 0x1E], [CHR 0x1F], [CHR 0x20],
      [CHR 0xC2, CHR 0x85], [CHR 0xC2, CHR 0xA0], [CHR 0xE1, CHR 0x9A, CHR 0x80],
      [CHR 0xE2, CHR 0x80, CHR 0x80], [CHR 0xE2, CHR 0x80, CHR 0x81],
      [CHR 0xE2, CHR 0x80, CHR 0x82], [CHR 0xE2, CHR 0x80, CHR 0x83],
      [CHR 0xE2, CHR 0x80, CHR 0x84], [CHR 0xE2, CHR 0x80, CHR 0x85],
      [CHR 0xE2, CHR 0x80, CHR 0x86], [CHR 0xE2, CHR 0x80, CHR 0x87],
      [CHR 0xE2, CHR 0x80, CHR 0x88], [CHR 0xE2, CHR 0x80, CHR 0x89],
      [CHR 0xE2, CHR 0x80, CHR 0x8A], [CHR 0xE2, CHR 0x80, CHR 0xA8],
      [CHR 0xE2, CHR 0x80, CHR 0xA9], [CHR 0xE2, CHR 0x80, CHR 0xAF],
      [CHR 0xE2, CHR 0x81, CHR 0x9F], [CHR 0xE3, CHR 0x80, CHR 0x80]]"

fun drop_leading :: "string list \<Rightarrow> string \<Rightarrow> string" where
  "drop_leading ws [] = []"
| "drop_leading ws (c # cs) =
     (case find (\<lambda>w. prefix w (c # cs)) ws of
        None \<Rightarrow> c # cs
      | Some w \<Rightarrow> drop_leading ws (drop (length w - 1) cs))"

definition strip :: "string \<Rightarrow> string" where
  "strip s = rev (drop_leading (map rev whitespace) (rev (drop_leading whitespace s)))"

definition replace_newline :: "string \<Rightarrow> string" where
  \<comment> \<open>\<open>s.replace("\n", " ")\<close>\<close>
  "replace_newline s = map (\<lambda>c. if c = CHR 0x0A then CHR 0x20 else c) s"

text \<open>
  \<open>s.split(sep)\<close> for a non-empty separator: the occurrences of \<open>sep\<close> are found from
  the left and do not overlap; the result always has at least one element (so the
  \<open>[]\<close> branch of the case below is never taken).
\<close>

fun split_str :: "string \<Rightarrow> string \<Rightarrow> string list" where
  "split_str sep [] = [[]]"
| "split_str sep (c # cs) =
     (if sep \<noteq> [] \<and> prefix sep (c # cs)
      then [] # split_str sep (drop (length sep - 1) cs)
      else (case split_str sep cs of
              [] \<Rightarrow> [[c]]
            | x # xs \<Rightarrow> (c # x) # xs))"

fun join_str :: "string \<Rightarrow> string list \<Rightarrow> string" where
  "join_str sep [] = []"
| "join_str sep [x] = x"
| "join_str sep (x # y # ys) = x @ sep @ join_str sep (y # ys)"

definition lower_char :: "char \<Rightarrow> char" where
  "lower_char c = (if CHR ''A'' \<le> c \<and> c \<le> CHR ''Z'' then char_of (of_char c + (32::nat)) else c)"

definition lower :: "string \<Rightarrow> string" where
  \<comment> \<open>\<open>s.lower()\<close> for a string of ASCII characters\<close>
  "lower s = map lower_char s"

text \<open>
  \<open>s.lower()\<close> for any string. On a string with a character outside ASCII the result
  is given by the case mappings of Unicode, which are not part of the sources: the
  function \<open>unicode_lower\<close> that returns it is a parameter.
\<close>

definition is_ascii :: "string \<Rightarrow> bool" where
  "is_ascii s = list_all (\<lambda>c. c < CHR 0x80) s"

definition str_lower :: "(string \<Rightarrow> string) \<Rightarrow> string \<Rightarrow> string" where
  "str_lower unicode_lower s = (if is_ascii s then lower s else unicode_lower s)"

section \<open>bibtex.py\<close>

record BibDatabase =
  entries :: "entry list"

definition PLAIN_PREFIX :: string where
  "PLAIN_PREFIX = ''plain_''"

definition remove_plain_fields :: "entry \<Rightarrow> entry" where
  "remove_plain_fields entry = (\<lambda>field. if prefix PLAIN_PREFIX field then None else entry field)"

text \<open>
  The module configures the writer of the bibtexparser library with
  \<open>writer.order_entries_by = ("author", "year", "title")\<close>. With that attribute set,
  the writer emits \<open>sorted(database.entries, key=entry_sort_key)\<close>, where the key of an
  entry is the tuple of its values for these fields, each through \<open>str.lower()\<close>, a
  missing field counting as the empty string. \<open>sorted\<close> is stable, as \<open>sort_key\<close>
  is, and strings compare by code point, as their UTF-8 encodings compare by byte. To
  write an entry the writer reads \<open>entry['ENTRYTYPE']\<close> and \<open>entry['ID']\<close>, and raises
  \<open>KeyError\<close> for an entry that lacks one of them.
\<close>

definition order_entries_by :: "string list" where
  "order_entries_by = [''author'', ''year'', ''title'']"

definition entry_sort_key :: "(string \<Rightarrow> string) \<Rightarrow> string list \<Rightarrow> entry \<Rightarrow> string list" where
  "entry_sort_key unicode_lower field_names entry =
     map (\<lambda>field. str_lower unicode_lower (case entry field of None \<Rightarrow> [] | Some v \<Rightarrow> v))
       field_names"

definition writable :: "entry \<Rightarrow> bool" where
  "writable entry = (entry ''ENTRYTYPE'' \<noteq> None \<and> entry ''ID'' \<noteq> None)"

definition writer_write :: "(string \<Rightarrow> string) \<Rightarrow> entry list \<Rightarrow> error + entry list" where
  "writer_write unicode_lower es =
     (let ordered = sort_key (entry_sort_key unicode_lower order_entries_by) es
      in if list_all writable ordered then Inr ordered else Inl KeyError)"

text \<open>
  \<open>write\<close> (here \<open>write_database\<close>) removes the \<open>plain_\<close> fields of every entry of the
  database and hands the database to the writer. The model returns the entries in the order in which the
  returned text lists them, or the exception the writer raises.
\<close>

definition write_database :: "(string \<Rightarrow> string) \<Rightarrow> BibDatabase \<Rightarrow> error + entry list" where
  "write_database unicode_lower database =
     writer_write unicode_lower (map remove_plain_fields (entries database))"

record Author =
  lastname :: string
  firstnames :: "string option"

text \<open>
  \<open>get_authors\<close>. \<open>customization.getnames\<close> belongs to the bibtexparser library and is a
  parameter; it returns the names as strings or raises. Each string it returns is
  split at \<open>", "\<close>; \<open>split[1]\<close> raises \<open>IndexError\<close> when the string holds no \<open>", "\<close>.
\<close>

fun format_authors :: "string list \<Rightarrow> error + Author list" where
  "format_authors [] = Inr []"
| "format_authors (author # rest) =
     (case split_str '', '' author of
        s0 # s1 # _ \<Rightarrow>
          (case format_authors rest of
             Inl e \<Rightarrow> Inl e
           | Inr formatted \<Rightarrow> Inr (\<lparr>lastname = s0, firstnames = Some s1\<rparr> # formatted))
      | _ \<Rightarrow> Inl IndexError)"

definition get_authors :: "(string list \<Rightarrow> error + string list) \<Rightarrow> string \<Rightarrow> error + Author list" where
  "get_authors getnames author =
     (let authors = map strip (split_str '' and '' (replace_newline author))
      in case getnames authors of
           Inl e \<Rightarrow> Inl e
         | Inr names \<Rightarrow> format_authors names)"

definition has_field :: "entry \<Rightarrow> string \<Rightarrow> bool" where
  "has_field entry field = (case entry field of None \<Rightarrow> False | Some v \<Rightarrow> v \<noteq> [])"

definition get_entries :: "BibDatabase \<Rightarrow> entry list" where
  "get_entries db = entries db"

text \<open>
  On names written \<open>Last, First\<close> with one word on each side of the comma, the
  library's \<open>getnames\<close> returns the names as they are; this instance of the parameter is
  used at concrete inputs of that form only.
\<close>

definition getnames_formatted :: "string list \<Rightarrow> error + string list" where
  "getnames_formatted names = Inr names"

section \<open>lookup.py\<close>

subsection \<open>AbstractBaseLookup.lookup\<close>

text \<open>
  What the HTTPS connection does for one request: it times out, fails to resolve the
  host, or answers with a status and a body (other network exceptions, which \<open>lookup\<close>
  does not catch, are not modelled). \<open>lookup\<close> returns the pair of the data it read and
  handed to \<open>handle_output\<close> (if any) and its result.
\<close>

datatype http_outcome = SocketTimeout | SocketGaierror | Response int bytes

definition lookup ::
  "(bytes \<Rightarrow> error + string option) \<Rightarrow> http_outcome \<Rightarrow> bytes option \<times> (error + string option)" where
  "lookup handle_output outcome =
     (case outcome of
        SocketTimeout \<Rightarrow> (None, Inr None)
      | SocketGaierror \<Rightarrow> (None, Inr None)
      | Response status data \<Rightarrow>
          if status \<noteq> 200 then (None, Inr None)
          else (Some data, handle_output data))"

subsection \<open>AbstractMultipleLookup.query\<close>

text \<open>
  The instance: \<open>__init__\<close> sets \<open>entry\<close> only; \<open>title\<close> and \<open>author\<close> are annotated in
  the class body without a value, so they are unassigned on a new instance.
\<close>

record lookup_self =
  self_entry :: entry
  self_title :: "string option slot"
  self_author :: "string option slot"

definition init :: "entry \<Rightarrow> lookup_self" where
  "init entry = \<lparr>self_entry = entry, self_title = Unassigned, self_author = Unassigned\<rparr>"

definition author_join :: string where
  "author_join = '' ''"

definition max_search_queries :: int where
  "max_search_queries = 10"

text \<open>
  A call of \<open>self.lookup()\<close> sees \<open>self.author\<close> and \<open>self.title\<close> (a \<open>shape\<close>). The
  service that answers is a parameter: given the lookups made so far and the present
  one, it returns what \<open>lookup\<close> returns or the exception it raises. \<open>query\<close> returns
  the lookups it made, in order, with its result.
\<close>

type_synonym shape = "string option slot \<times> string option slot"
type_synonym service = "shape list \<Rightarrow> shape \<Rightarrow> error + string option"

text \<open>Lines 162-163: \<open>self.title\<close> after the first \<open>if\<close>.\<close>

definition query_title_attr :: "lookup_self \<Rightarrow> error + string option slot" where
  "query_title_attr self =
     (if has_field (self_entry self) ''title''
      then (case self_entry self ''plain_title'' of
              None \<Rightarrow> Inl KeyError
            | Some plain_title \<Rightarrow> Inr (Assigned (Some (strip plain_title))))
      else Inr (self_title self))"

text \<open>Lines 164-166: the local \<open>authors\<close> and \<open>self.author\<close> after the second \<open>if\<close>.\<close>

definition query_author_attr ::
  "(string list \<Rightarrow> error + string list) \<Rightarrow> lookup_self
     \<Rightarrow> error + (Author list slot \<times> string option slot)" where
  "query_author_attr getnames self =
     (if has_field (self_entry self) ''author''
      then (case self_entry self ''plain_author'' of
              None \<Rightarrow> Inl KeyError
            | Some plain_author \<Rightarrow>
                (case get_authors getnames plain_author of
                   Inl e \<Rightarrow> Inl e
                 | Inr authors \<Rightarrow>
                     Inr (Assigned authors,
                          Assigned (Some (join_str author_join (map lastname authors))))))
      else Inr (Unassigned, self_author self))"

text \<open>
  Line 167: \<open>self.title is None and self.author is None\<close>; \<open>and\<close> reads \<open>self.author\<close>
  only when \<open>self.title\<close> is \<open>None\<close>.
\<close>

definition no_query_data :: "string option slot \<Rightarrow> string option slot \<Rightarrow> error + bool" where
  "no_query_data title author =
     (case title of
        Unassigned \<Rightarrow> Inl AttributeError
      | Assigned (Some _) \<Rightarrow> Inr False
      | Assigned None \<Rightarrow>
          (case author of
             Unassigned \<Rightarrow> Inl AttributeError
           | Assigned None \<Rightarrow> Inr True
           | Assigned (Some _) \<Rightarrow> Inr False))"

text \<open>
  Lines 179-186, the loop over the authors, entered with \<open>queries = 1\<close>. The second
  component is \<open>Some r\<close> when the loop returns from \<open>query\<close> with \<open>r\<close> (or raises), and
  \<open>None\<close> when it ends or breaks.
\<close>

fun one_author_loop ::
  "service \<Rightarrow> int \<Rightarrow> string option slot \<Rightarrow> shape list \<Rightarrow> int \<Rightarrow> Author list
     \<Rightarrow> shape list \<times> (error + string option) option" where
  "one_author_loop lk mx title made queries [] = (made, None)"
| "one_author_loop lk mx title made queries (author # rest) =
     (let q = (Assigned (Some (lastname author)), title)
      in case lk made q of
           Inl e \<Rightarrow> (made @ [q], Some (Inl e))
         | Inr (Some found) \<Rightarrow> (made @ [q], Some (Inr (Some found)))
         | Inr None \<Rightarrow>
             if queries + 1 > mx then (made @ [q], None)
             else one_author_loop lk mx title (made @ [q]) (queries + 1) rest)"

text \<open>Lines 189-193: \<open>self.author = None\<close> and the query by title alone.\<close>

definition title_only_query ::
  "service \<Rightarrow> string option slot \<Rightarrow> shape list \<Rightarrow> shape list \<times> (error + string option)" where
  "title_only_query lk title made =
     (case title of
        Unassigned \<Rightarrow> (made, Inl AttributeError)
      | Assigned None \<Rightarrow> (made, Inr None)
      | Assigned (Some _) \<Rightarrow> (made @ [(Assigned None, title)], lk made (Assigned None, title)))"

definition query ::
  "(string list \<Rightarrow> error + string list) \<Rightarrow> service \<Rightarrow> int \<Rightarrow> lookup_self
     \<Rightarrow> shape list \<times> (error + string option)" where
  "query getnames lk mx self =
     (case query_title_attr self of
        Inl e \<Rightarrow> ([], Inl e)
      | Inr title \<Rightarrow>
     (case query_author_attr getnames self of
        Inl e \<Rightarrow> ([], Inl e)
      | Inr (authors, author) \<Rightarrow>
     (case no_query_data title author of
        Inl e \<Rightarrow> ([], Inl e)
      | Inr no_data \<Rightarrow>
     if no_data then ([], Inr None)
     else
     (case lk [] (author, title) of
        Inl e \<Rightarrow> ([(author, title)], Inl e)
      | Inr (Some found) \<Rightarrow> ([(author, title)], Inr (Some found))
      | Inr None \<Rightarrow>
     (case authors of
        Unassigned \<Rightarrow> ([(author, title)], Inl UnboundLocalError)
      | Assigned as \<Rightarrow>
     (case (if length as > 1 then one_author_loop lk mx title [(author, title)] 1 as
            else ([(author, title)], None)) of
        (made, Some r) \<Rightarrow> (made, r)
      | (made, None) \<Rightarrow> title_only_query lk title made))))))"

subsection \<open>AbstractSearchLookup.handle_output\<close>

text \<open>
  \<open>get_results\<close>, \<open>get_title\<close> and \<open>get_value\<close> are the methods a child class supplies,
  \<open>str_similar\<close> comes from a module that is not part of the sources: all four are
  parameters. \<open>self.entry["plain_title"]\<close> is read only for a result whose title is not
  \<open>None\<close>, and raises \<open>KeyError\<close> when the entry has no such field.
\<close>

fun search_results ::
  "('r \<Rightarrow> string option) \<Rightarrow> ('r \<Rightarrow> string option) \<Rightarrow> (string \<Rightarrow> string \<Rightarrow> bool)
     \<Rightarrow> entry \<Rightarrow> 'r list \<Rightarrow> error + string option" where
  "search_results get_title get_value str_similar entry [] = Inr None"
| "search_results get_title get_value str_similar entry (res # rest) =
     (case get_title res of
        None \<Rightarrow> search_results get_title get_value str_similar entry rest
      | Some title \<Rightarrow>
          (case entry ''plain_title'' of
             None \<Rightarrow> Inl KeyError
           | Some plain_title \<Rightarrow>
               if str_similar title plain_title
               then (case get_value res of
                       Some v \<Rightarrow> Inr (Some v)
                     | None \<Rightarrow> search_results get_title get_value str_similar entry rest)
               else search_results get_title get_value str_similar entry rest))"

definition handle_output ::
  "(bytes \<Rightarrow> error + 'r list option) \<Rightarrow> ('r \<Rightarrow> string option) \<Rightarrow> ('r \<Rightarrow> string option)
     \<Rightarrow> (string \<Rightarrow> string \<Rightarrow> bool) \<Rightarrow> entry \<Rightarrow> bytes \<Rightarrow> error + string option" where
  "handle_output get_results get_title get_value str_similar entry data =
     (case get_results data of
        Inl e \<Rightarrow> Inl e
      | Inr None \<Rightarrow> Inr None
      | Inr (Some results) \<Rightarrow> search_results get_title get_value str_similar entry results)"

subsection \<open>AbstractJSONSearchLookup.get_results\<close>

text \<open>
  \<open>data.decode()\<close> decodes UTF-8 strictly and raises \<open>UnicodeDecodeError\<close> on bytes
  that are not well-formed UTF-8 (the table of well-formed byte sequences of the Unicode
  standard). As a \<open>str\<close> is modelled by its UTF-8 encoding, decoding returns the bytes.
\<close>

definition continuation :: "nat \<Rightarrow> bool" where
  "continuation b = (0x80 \<le> b \<and> b \<le> 0xBF)"

fun utf8_valid :: "nat list \<Rightarrow> bool" where
  "utf8_valid [] = True"
| "utf8_valid (b # bs) =
     (if b < 0x80 then utf8_valid bs
      else if 0xC2 \<le> b \<and> b \<le> 0xDF then
        (case bs of
           b1 # r \<Rightarrow> continuation b1 \<and> utf8_valid r
         | _ \<Rightarrow> False)
      else if 0xE0 \<le> b \<and> b \<le> 0xEF then
        (case bs of
           b1 # b2 # r \<Rightarrow>
             (if b = 0xE0 then 0xA0 \<le> b1 \<and> b1 \<le> 0xBF
              else if b = 0xED then 0x80 \<le> b1 \<and> b1 \<le> 0x9F
              else continuation b1)
             \<and> continuation b2 \<and> utf8_valid r
         | _ \<Rightarrow> False)
      else if 0xF0 \<le> b \<and> b \<le> 0xF4 then
        (case bs of
           b1 # b2 # b3 # r \<Rightarrow>
             (if b = 0xF0 then 0x90 \<le> b1 \<and> b1 \<le> 0xBF
              else if b = 0xF4 then 0x80 \<le> b1 \<and> b1 \<le> 0x8F
              else continuation b1)
             \<and> continuation b2 \<and> continuation b3 \<and> utf8_valid r
         | _ \<Rightarrow> False)
      else False)"

definition bytes_decode :: "bytes \<Rightarrow> error + string" where
  "bytes_decode data =
     (if utf8_valid (map of_char data) then Inr data else Inl UnicodeDecodeError)"

text \<open>
  \<open>JSONDecoder().decode\<close> is a parameter that returns the decoded value or raises.
  The \<open>try\<close> catches \<open>JSONDecodeError\<close> and nothing else (the decoder raises
  \<open>RecursionError\<close> on input nested too deeply). \<open>get_results_json\<close> is supplied by
  the child class.
\<close>

definition get_results ::
  "(string \<Rightarrow> error + 'j) \<Rightarrow> ('j \<Rightarrow> error + 'r list option) \<Rightarrow> bytes
     \<Rightarrow> error + 'r list option" where
  "get_results json_decode get_results_json data =
     (case bytes_decode data of
        Inl e \<Rightarrow> Inl e
      | Inr decoded \<Rightarrow>
          (case json_decode decoded of
             Inl e \<Rightarrow> if e = JSONDecodeError then Inr None else Inl e
           | Inr json \<Rightarrow> get_results_json json))"

section \<open>autocomplete.py\<close>

text \<open>
  A Python value that is either \<open>None\<close> or a function; calling \<open>None\<close> raises
  \<open>TypeError\<close>.
\<close>

datatype 'f pyvalue = PyNone | PyFunction 'f

definition call :: "('a \<Rightarrow> 'b) pyvalue \<Rightarrow> 'a \<Rightarrow> error + 'b" where
  "call f x = (case f of PyNone \<Rightarrow> Inl TypeError | PyFunction g \<Rightarrow> Inr (g x))"

text \<open>
  The dispatcher object: its databases, and the attributes \<open>setattr\<close> adds to it
  (\<open>_total\<close>, \<open>_missing_dois\<close>).
\<close>

record BibtexAutocomplete =
  bibdatabases :: "BibDatabase list"
  attributes :: "string \<Rightarrow> int option"

text \<open>
  \<open>memoize\<close>: the innermost function \<open>helper\<close> caches the value in the attribute.
  \<open>decorator\<close> defines \<open>helper\<close> and \<open>memoize\<close> defines \<open>decorator\<close>, and neither has
  a \<open>return\<close> statement: both return \<open>None\<close>.
\<close>

definition helper ::
  "string \<Rightarrow> (BibtexAutocomplete \<Rightarrow> int) \<Rightarrow> BibtexAutocomplete \<Rightarrow> int \<times> BibtexAutocomplete" where
  "helper attr_name function self =
     (case attributes self attr_name of
        Some v \<Rightarrow> (v, self)
      | None \<Rightarrow>
          (let v = function self
           in (v, self\<lparr>attributes := (attributes self)(attr_name \<mapsto> v)\<rparr>)))"

definition decorator ::
  "string \<Rightarrow> (BibtexAutocomplete \<Rightarrow> int)
     \<Rightarrow> (BibtexAutocomplete \<Rightarrow> int \<times> BibtexAutocomplete) pyvalue" where
  "decorator attr_name function = PyNone"

definition memoize ::
  "string \<Rightarrow> ((BibtexAutocomplete \<Rightarrow> int)
     \<Rightarrow> (BibtexAutocomplete \<Rightarrow> int \<times> BibtexAutocomplete) pyvalue) pyvalue" where
  "memoize attr_name = PyNone"

text \<open>
  A generator is modelled by the values it yields and the way it ends: \<open>None\<close> when its
  body returns, \<open>Some e\<close> when its body raises \<open>e\<close>. A \<open>StopIteration\<close> raised inside a
  generator body is turned into \<open>RuntimeError\<close> (PEP 479, the behaviour of Python 3.7 and
  later).
\<close>

definition generator_raise :: "error \<Rightarrow> error" where
  "generator_raise e = (if e = StopIteration then RuntimeError else e)"

definition iter_entries :: "BibtexAutocomplete \<Rightarrow> entry list \<times> error option" where
  "iter_entries self =
     (concat (map get_entries (bibdatabases self)), Some (generator_raise StopIteration))"

text \<open>The function under \<open>@memoize("_total")\<close>, and what the class body binds the name to.\<close>

definition count_entries_body :: "BibtexAutocomplete \<Rightarrow> int" where
  "count_entries_body self =
     fold (\<lambda>db count. count + int (length (get_entries db))) (bibdatabases self) 0"

definition count_entries ::
  "error + (BibtexAutocomplete \<Rightarrow> int \<times> BibtexAutocomplete) pyvalue" where
  "count_entries = call (memoize ''_total'') count_entries_body"

definition count_missing :: "BibtexAutocomplete \<Rightarrow> string \<Rightarrow> error + int" where
  "count_missing self field =
     (case iter_entries self of
        (yielded, stop) \<Rightarrow>
          (let count = fold (\<lambda>entry count. if \<not> has_field entry field then count + 1 else count)
                         yielded 0
           in case stop of Some e \<Rightarrow> Inl e | None \<Rightarrow> Inr count))"

text \<open>
  \<open>get_dois\<close>. The constructors of \<open>DOI_lookups\<close> are not part of the sources: each is a
  parameter that maps the entry to what \<open>lookup(entry).query()\<close> returns or raises, and
  does not change the entry (neither \<open>__init__\<close> nor the \<open>query\<close> and \<open>handle_output\<close>
  of the abstract classes do). The entries are changed in place; the model returns the
  entries of \<open>iter_entries\<close> as they are when \<open>get_dois\<close> ends, with the way it ends.
  The f-string of the log line reads \<open>entry['ID']\<close> before the assignment. The counter
  \<open>found\<close> is never read and is left out.
\<close>

fun try_lookups :: "(entry \<Rightarrow> error + string option) list \<Rightarrow> entry \<Rightarrow> error + entry" where
  "try_lookups [] entry = Inr entry"
| "try_lookups (lookup_class # rest) entry =
     (case lookup_class entry of
        Inl e \<Rightarrow> Inl e
      | Inr None \<Rightarrow> try_lookups rest entry
      | Inr (Some res) \<Rightarrow>
          (case entry ''ID'' of
             None \<Rightarrow> Inl KeyError
           | Some _ \<Rightarrow> Inr (entry(''doi'' \<mapsto> res))))"

fun get_dois_loop ::
  "(entry \<Rightarrow> error + string option) list \<Rightarrow> entry list \<Rightarrow> entry list \<times> error option" where
  "get_dois_loop DOI_lookups [] = ([], None)"
| "get_dois_loop DOI_lookups (entry # rest) =
     (if has_field entry ''doi''
      then (case get_dois_loop DOI_lookups rest of (rest', r) \<Rightarrow> (entry # rest', r))
      else (case try_lookups DOI_lookups entry of
              Inl e \<Rightarrow> (entry # rest, Some e)
            | Inr entry' \<Rightarrow>
                (case get_dois_loop DOI_lookups rest of (rest', r) \<Rightarrow> (entry' # rest', r))))"

definition get_dois ::
  "(entry \<Rightarrow> error + string option) list \<Rightarrow> BibtexAutocomplete \<Rightarrow> entry list \<times> (error + unit)" where
  "get_dois DOI_lookups self =
     (case iter_entries self of
        (yielded, stop) \<Rightarrow>
          (case get_dois_loop DOI_lookups yielded of
             (after, Some e) \<Rightarrow> (after, Inl e)
           | (after, None) \<Rightarrow>
               (case stop of Some e \<Rightarrow> (after, Inl e) | None \<Rightarrow> (after, Inr ()))))"

section \<open>The words of the specification, for comparison with the code\<close>

text \<open>A status code of the 2xx class.\<close>

definition success_2xx :: "int \<Rightarrow> bool" where
  "success_2xx status = (200 \<le> status \<and> status < 300)"

text \<open>
  Selection by score: among the records whose score reaches the accept threshold, the
  value of one with the greatest score (the first of them), and \<open>None\<close> when no record
  reaches the threshold.
\<close>

definition best_scoring ::
  "('r \<Rightarrow> int) \<Rightarrow> int \<Rightarrow> ('r \<Rightarrow> string option) \<Rightarrow> 'r list \<Rightarrow> string option" where
  "best_scoring score accept get_value results =
     (case filter (\<lambda>r. accept \<le> score r) results of
        [] \<Rightarrow> None
      | c # cs \<Rightarrow> get_value (fold (\<lambda>r best. if score best < score r then r else best) cs c))"

text \<open>
  \<open>all_none lk made qs\<close>: each lookup of \<open>qs\<close>, made in this order after the lookups
  \<open>made\<close>, returned \<open>None\<close>.
\<close>

fun all_none :: "service \<Rightarrow> shape list \<Rightarrow> shape list \<Rightarrow> bool" where
  "all_none lk made [] = True"
| "all_none lk made (q # qs) = (lk made q = Inr None \<and> all_none lk (made @ [q]) qs)"

section \<open>Auxiliary facts\<close>

lemma split_str_nonempty: "split_str sep s \<noteq> []"
  by (induction sep s rule: split_str.induct) (auto split: list.splits)

lemma split_str_two:
  "sep \<noteq> [] \<Longrightarrow> \<exists>s0 s1 rest. split_str sep (l @ sep @ r) = s0 # s1 # rest"
proof (induction l)
  case Nil
  then obtain c cs where sep: "sep = c # cs" by (cases sep) auto
  have "split_str sep (drop (length sep - 1) (cs @ r)) \<noteq> []" by (rule split_str_nonempty)
  then obtain x xs where "split_str sep (drop (length sep - 1) (cs @ r)) = x # xs"
    by (cases "split_str sep (drop (length sep - 1) (cs @ r))") auto
  with sep show ?case by simp
next
  case (Cons a l)
  then obtain s0 s1 rest where ih: "split_str sep (l @ sep @ r) = s0 # s1 # rest" by blast
  show ?case
  proof (cases "prefix sep (a # l @ sep @ r)")
    case True
    have "split_str sep (drop (length sep - 1) (l @ sep @ r)) \<noteq> []" by (rule split_str_nonempty)
    then obtain x xs where "split_str sep (drop (length sep - 1) (l @ sep @ r)) = x # xs"
      by (cases "split_str sep (drop (length sep - 1) (l @ sep @ r))") auto
    with True Cons.prems show ?thesis by simp
  next
    case False
    with ih show ?thesis by simp
  qed
qed

lemma format_authors_ok:
  "\<forall>n \<in> set names. \<exists>l r. n = l @ '', '' @ r \<Longrightarrow>
   format_authors names =
     Inr (map (\<lambda>n. \<lparr>lastname = split_str '', '' n ! 0,
                      firstnames = Some (split_str '', '' n ! 1)\<rparr>) names)"
proof (induction names)
  case Nil
  then show ?case by simp
next
  case (Cons n names)
  then obtain l r where "n = l @ '', '' @ r" by auto
  then obtain s0 s1 rest where "split_str '', '' n = s0 # s1 # rest"
    using split_str_two[of "'', ''" l r] by auto
  with Cons show ?case by simp
qed

lemma split_str_no_separator:
  "\<not> (\<exists>l r. s = l @ sep @ r) \<Longrightarrow> split_str sep s = [s]"
proof (induction s)
  case Nil
  then show ?case by simp
next
  case (Cons c cs)
  have np: "\<not> prefix sep (c # cs)"
  proof
    assume "prefix sep (c # cs)"
    then obtain r where "c # cs = sep @ r" by (auto simp add: prefix_def)
    then have "c # cs = [] @ sep @ r" by simp
    with Cons.prems show False by blast
  qed
  have "\<not> (\<exists>l r. cs = l @ sep @ r)"
  proof
    assume "\<exists>l r. cs = l @ sep @ r"
    then obtain l r where "cs = l @ sep @ r" by blast
    then have "c # cs = (c # l) @ sep @ r" by simp
    with Cons.prems show False by blast
  qed
  with Cons.IH have "split_str sep cs = [cs]" by simp
  with np show ?case by simp
qed

lemma format_authors_raises:
  "\<exists>n \<in> set names. \<not> (\<exists>l r. n = l @ '', '' @ r) \<Longrightarrow> format_authors names = Inl IndexError"
proof (induction names)
  case Nil
  then show ?case by simp
next
  case (Cons n names)
  show ?case
  proof (cases "\<exists>l r. n = l @ '', '' @ r")
    case False
    then have "split_str '', '' n = [n]" by (rule split_str_no_separator)
    then show ?thesis by simp
  next
    case True
    then obtain l r where "n = l @ '', '' @ r" by blast
    then obtain s0 s1 rest where sp: "split_str '', '' n = s0 # s1 # rest"
      using split_str_two[of "'', ''" l r] by auto
    from True Cons.prems have "\<exists>n \<in> set names. \<not> (\<exists>l r. n = l @ '', '' @ r)" by auto
    with Cons.IH have "format_authors names = Inl IndexError" by simp
    with sp show ?thesis by simp
  qed
qed

lemma get_authors_raises_without_separator:
  "getnames (map strip (split_str '' and '' (replace_newline author))) = Inr names \<Longrightarrow>
   \<exists>n \<in> set names. \<not> (\<exists>l r. n = l @ '', '' @ r) \<Longrightarrow>
   get_authors getnames author = Inl IndexError"
  by (simp add: get_authors_def format_authors_raises)

lemma writable_remove_plain: "writable (remove_plain_fields e) = writable e"
  by (simp add: writable_def remove_plain_fields_def PLAIN_PREFIX_def)

lemma key_remove_plain:
  "entry_sort_key U order_entries_by (remove_plain_fields e) = entry_sort_key U order_entries_by e"
  by (simp add: entry_sort_key_def order_entries_by_def remove_plain_fields_def PLAIN_PREFIX_def)

lemma map_key_remove_plain:
  "map (entry_sort_key U order_entries_by) (map remove_plain_fields es)
     = map (entry_sort_key U order_entries_by) es"
  by (simp add: key_remove_plain)

lemma writer_write_writable:
  "list_all writable es \<Longrightarrow>
   writer_write U es = Inr (sort_key (entry_sort_key U order_entries_by) es)"
  by (simp add: writer_write_def list_all_iff)

lemma writer_write_key_error:
  "\<not> list_all writable es \<Longrightarrow> writer_write U es = Inl KeyError"
  by (simp add: writer_write_def list_all_iff)

lemma write_database_key_error:
  "\<not> list_all writable (entries db) \<Longrightarrow> write_database U db = Inl KeyError"
  by (simp add: write_database_def writer_write_key_error list_all_iff writable_remove_plain)

lemma lower_abe_zed: "lower ''Zed'' = ''zed''" "lower ''Abe'' = ''abe''" "lower [] = []"
  by code_simp+

lemma lower_examples:
  "lower ''Abe'' = ''abe''" "lower ''abe'' = ''abe''" "lower ''2001'' = ''2001''"
  "lower ''1999'' = ''1999''" "lower ''beta'' = ''beta''" "lower ''Alpha'' = ''alpha''"
  "lower ''Zeta'' = ''zeta''"
  by code_simp+

lemma search_results_find:
  "entry ''plain_title'' = Some plain_title \<Longrightarrow>
   search_results get_title get_value str_similar entry results =
     Inr (case find (\<lambda>res. (case get_title res of None \<Rightarrow> False
                                | Some t \<Rightarrow> str_similar t plain_title)
                           \<and> get_value res \<noteq> None) results of
            None \<Rightarrow> None
          | Some res \<Rightarrow> get_value res)"
  by (induction results) (auto split: option.splits)

lemma try_lookups_frame:
  "try_lookups L e = Inr e' \<Longrightarrow> e' = e \<or> (\<exists>res. e ''ID'' \<noteq> None \<and> e' = e(''doi'' \<mapsto> res))"
  by (induction L) (auto split: sum.splits option.splits)

lemma get_dois_loop_frame:
  "list_all2 (\<lambda>before after. after ''ID'' = before ''ID''
       \<and> (has_field before ''doi'' \<longrightarrow> after = before)
       \<and> (\<forall>field. field \<noteq> ''doi'' \<longrightarrow> after field = before field))
     es (fst (get_dois_loop L es))"
proof (induction es)
  case Nil
  then show ?case by simp
next
  case (Cons e es)
  show ?case
  proof (cases "has_field e ''doi''")
    case True
    with Cons show ?thesis by (simp add: split_beta)
  next
    case False
    show ?thesis
    proof (cases "try_lookups L e")
      case (Inl err)
      with False show ?thesis by (simp add: list_all2_same list.rel_refl)
    next
      case (Inr e')
      from try_lookups_frame[OF Inr]
      have "e' = e \<or> (\<exists>res. e ''ID'' \<noteq> None \<and> e' = e(''doi'' \<mapsto> res))" .
      with False Inr Cons show ?thesis by (auto simp add: split_beta)
    qed
  qed
qed

subsection \<open>The lookups of \<open>query\<close>\<close>

lemma all_none_append:
  "all_none lk made (xs @ ys) = (all_none lk made xs \<and> all_none lk (made @ xs) ys)"
  by (induction xs arbitrary: made) auto

lemma all_none_butlast: "all_none lk pre made \<Longrightarrow> all_none lk pre (butlast made)"
  by (cases made rule: rev_cases) (auto simp add: all_none_append)

lemma loop_length:
  "length (fst (one_author_loop lk mx title made queries as))
     \<le> length made + nat (max 1 (mx - queries + 1))"
proof (induction as arbitrary: made queries)
  case Nil
  then show ?case by simp
next
  case (Cons a as)
  let ?q = "(Assigned (Some (lastname a)), title)"
  show ?case
  proof (cases "lk made ?q")
    case (Inl e)
    then show ?thesis by (simp add: Let_def)
  next
    case (Inr res)
    show ?thesis
    proof (cases res)
      case (Some v)
      with Inr show ?thesis by (simp add: Let_def)
    next
      case None
      show ?thesis
      proof (cases "queries + 1 > mx")
        case True
        with Inr None show ?thesis by (simp add: Let_def)
      next
        case False
        have "length (fst (one_author_loop lk mx title (made @ [?q]) (queries + 1) as))
            \<le> length (made @ [?q]) + nat (max 1 (mx - (queries + 1) + 1))"
          by (rule Cons.IH)
        with False Inr None show ?thesis by (simp add: Let_def)
      qed
    qed
  qed
qed

lemma title_only_length: "length (fst (title_only_query lk title made)) \<le> length made + 1"
  by (simp add: title_only_query_def split: slot.splits option.splits)

lemma query_shape:
  "(fst (query g lk mx s) = [] \<and> (\<forall>v. snd (query g lk mx s) \<noteq> Inr (Some v)))
   \<or> (\<exists>q. fst (query g lk mx s) = [q]
          \<and> (snd (query g lk mx s) = lk [] q
              \<or> (lk [] q = Inr None \<and> snd (query g lk mx s) = Inl UnboundLocalError)))
   \<or> (\<exists>q title as. lk [] q = Inr None
          \<and> query g lk mx s =
             (case (if 1 < length as then one_author_loop lk mx title [q] 1 as else ([q], None)) of
                (made, Some r) \<Rightarrow> (made, r)
              | (made, None) \<Rightarrow> title_only_query lk title made))"
proof (cases "query_title_attr s")
  case (Inl e)
  then show ?thesis by (simp add: query_def)
next
  case T: (Inr title)
  show ?thesis
  proof (cases "query_author_attr g s")
    case (Inl e)
    with T show ?thesis by (simp add: query_def)
  next
    case A: (Inr both)
    obtain authors author where both: "both = (authors, author)" by (cases both)
    show ?thesis
    proof (cases "no_query_data title author")
      case (Inl e)
      with T A both show ?thesis by (simp add: query_def)
    next
      case N: (Inr no_data)
      show ?thesis
      proof (cases no_data)
        case True
        with T A both N show ?thesis by (simp add: query_def)
      next
        case F: False
        show ?thesis
        proof (cases "lk [] (author, title) = Inr None")
          case False
          with T A both N F have "fst (query g lk mx s) = [(author, title)]"
            "snd (query g lk mx s) = lk [] (author, title)"
            by (auto simp add: query_def split: sum.splits option.splits)
          then show ?thesis by blast
        next
          case L: True
          show ?thesis
          proof (cases authors)
            case Unassigned
            with T A both N F L have "query g lk mx s = ([(author, title)], Inl UnboundLocalError)"
              by (simp add: query_def)
            with L show ?thesis by simp
          next
            case (Assigned as)
            with T A both N F L have "query g lk mx s =
               (case (if 1 < length as then one_author_loop lk mx title [(author, title)] 1 as
                      else ([(author, title)], None)) of
                  (made, Some r) \<Rightarrow> (made, r)
                | (made, None) \<Rightarrow> title_only_query lk title made)"
              by (simp add: query_def)
            with L show ?thesis by blast
          qed
        qed
      qed
    qed
  qed
qed

lemma query_bound: "length (fst (query g lk mx s)) \<le> nat (max 1 mx) + 2"
proof -
  from query_shape[of g lk mx s] consider
    (none) "fst (query g lk mx s) = []"
  | (one) q where "fst (query g lk mx s) = [q]"
  | (many) q title as where "query g lk mx s =
             (case (if 1 < length as then one_author_loop lk mx title [q] 1 as else ([q], None)) of
                (made, Some r) \<Rightarrow> (made, r)
              | (made, None) \<Rightarrow> title_only_query lk title made)"
    by blast
  then show ?thesis
  proof cases
    case none
    then show ?thesis by simp
  next
    case one
    then show ?thesis by simp
  next
    case many
    define lp where "lp = (if 1 < length as then one_author_loop lk mx title [q] 1 as else ([q], None))"
    have len: "length (fst lp) \<le> 1 + nat (max 1 mx)"
      using loop_length[of lk mx title "[q]" 1 as] by (simp add: lp_def)
    obtain made r where lp: "lp = (made, r)" by (cases lp)
    show ?thesis
    proof (cases r)
      case None
      with many lp have "fst (query g lk mx s) = fst (title_only_query lk title made)"
        by (simp add: lp_def)
      moreover have "length (fst (title_only_query lk title made)) \<le> length made + 1"
        by (rule title_only_length)
      ultimately show ?thesis using len lp by simp
    next
      case (Some res)
      with many lp have "fst (query g lk mx s) = made" by (simp add: lp_def)
      then show ?thesis using len lp by simp
    qed
  qed
qed

lemma loop_stops:
  "all_none lk [] made \<Longrightarrow>
   all_none lk [] (butlast (fst (one_author_loop lk mx title made queries as)))
   \<and> (snd (one_author_loop lk mx title made queries as) = None
        \<longrightarrow> all_none lk [] (fst (one_author_loop lk mx title made queries as)))
   \<and> (\<forall>x. snd (one_author_loop lk mx title made queries as) = Some x
        \<longrightarrow> fst (one_author_loop lk mx title made queries as) \<noteq> []
          \<and> lk (butlast (fst (one_author_loop lk mx title made queries as)))
               (last (fst (one_author_loop lk mx title made queries as))) = x)"
proof (induction as arbitrary: made queries)
  case Nil
  then show ?case by (simp add: all_none_butlast)
next
  case (Cons a as)
  let ?q = "(Assigned (Some (lastname a)), title)"
  show ?case
  proof (cases "lk made ?q = Inr None")
    case False
    with Cons.prems show ?thesis
      by (auto simp add: Let_def split: sum.splits option.splits)
  next
    case True
    with Cons.prems have ok: "all_none lk [] (made @ [?q])" by (simp add: all_none_append)
    show ?thesis
    proof (cases "queries + 1 > mx")
      case big: True
      with True ok Cons.prems show ?thesis by (simp add: Let_def)
    next
      case False
      with True Cons.IH[OF ok, of "queries + 1"] show ?thesis by (simp add: Let_def)
    qed
  qed
qed

lemma title_only_stops:
  "all_none lk [] made \<Longrightarrow>
   all_none lk [] (butlast (fst (title_only_query lk title made)))
   \<and> (\<forall>v. snd (title_only_query lk title made) = Inr (Some v)
        \<longrightarrow> fst (title_only_query lk title made) \<noteq> []
          \<and> lk (butlast (fst (title_only_query lk title made)))
               (last (fst (title_only_query lk title made))) = Inr (Some v))"
  by (auto simp add: title_only_query_def all_none_butlast split: slot.splits option.splits)

lemma query_stops_at_first_result:
  "all_none lk [] (butlast (fst (query g lk mx s)))
   \<and> (\<forall>v. snd (query g lk mx s) = Inr (Some v)
        \<longrightarrow> fst (query g lk mx s) \<noteq> []
          \<and> lk (butlast (fst (query g lk mx s))) (last (fst (query g lk mx s))) = Inr (Some v))"
proof -
  from query_shape[of g lk mx s] consider
    (none) "fst (query g lk mx s) = []" "\<forall>v. snd (query g lk mx s) \<noteq> Inr (Some v)"
  | (one) q where "fst (query g lk mx s) = [q]"
       "snd (query g lk mx s) = lk [] q
              \<or> (lk [] q = Inr None \<and> snd (query g lk mx s) = Inl UnboundLocalError)"
  | (many) q title as where "lk [] q = Inr None" "query g lk mx s =
             (case (if 1 < length as then one_author_loop lk mx title [q] 1 as else ([q], None)) of
                (made, Some r) \<Rightarrow> (made, r)
              | (made, None) \<Rightarrow> title_only_query lk title made)"
    by blast
  then show ?thesis
  proof cases
    case none
    then show ?thesis by simp
  next
    case one
    then show ?thesis by auto
  next
    case many
    from many(1) have first: "all_none lk [] [q]" by simp
    show ?thesis
    proof (cases "1 < length as")
      case False
      with many(2) have "query g lk mx s = title_only_query lk title [q]" by simp
      with title_only_stops[OF first, of title] show ?thesis by simp
    next
      case True
      obtain made r where lp: "one_author_loop lk mx title [q] 1 as = (made, r)"
        by (cases "one_author_loop lk mx title [q] 1 as")
      from loop_stops[OF first, of mx title 1 as] lp
      have inv: "all_none lk [] (butlast made)" "r = None \<longrightarrow> all_none lk [] made"
        "\<forall>x. r = Some x \<longrightarrow> made \<noteq> [] \<and> lk (butlast made) (last made) = x"
        by simp_all
      show ?thesis
      proof (cases r)
        case None
        with many(2) True lp have "query g lk mx s = title_only_query lk title made" by simp
        moreover from None inv(2) have "all_none lk [] made" by simp
        ultimately show ?thesis using title_only_stops[of lk made title] by simp
      next
        case (Some x)
        with many(2) True lp have "query g lk mx s = (made, x)" by simp
        with inv(1) inv(3) Some show ?thesis by simp
      qed
    qed
  qed
qed

lemma loop_trace:
  "\<exists>k. k \<le> nat (max 1 (mx - queries + 1))
     \<and> fst (one_author_loop lk mx title made queries as)
         = made @ map (\<lambda>a. (Assigned (Some (lastname a)), title)) (take k as)
     \<and> (snd (one_author_loop lk mx title made queries as) = None
          \<longrightarrow> take k as = take (nat (max 1 (mx - queries + 1))) as)"
proof (induction as arbitrary: made queries)
  case Nil
  show ?case by (intro exI[of _ 0]) simp
next
  case (Cons a as)
  let ?q = "(Assigned (Some (lastname a)), title)"
  let ?K = "nat (max 1 (mx - queries + 1))"
  have K1: "1 \<le> ?K" by simp
  show ?case
  proof (cases "lk made ?q = Inr None")
    case False
    then have "\<exists>x. one_author_loop lk mx title made queries (a # as) = (made @ [?q], Some x)"
      by (auto simp add: Let_def split: sum.splits option.splits)
    then obtain x where eq: "one_author_loop lk mx title made queries (a # as) = (made @ [?q], Some x)"
      by blast
    show ?thesis unfolding eq using K1 by (intro exI[of _ 1]) simp
  next
    case True
    show ?thesis
    proof (cases "queries + 1 > mx")
      case big: True
      then have K: "?K = 1" by simp
      from True big have eq: "one_author_loop lk mx title made queries (a # as) = (made @ [?q], None)"
        by (simp add: Let_def)
      show ?thesis unfolding eq K by (intro exI[of _ 1]) simp
    next
      case False
      then have K: "?K = Suc (nat (max 1 (mx - (queries + 1) + 1)))" by simp
      from True False have step: "one_author_loop lk mx title made queries (a # as)
          = one_author_loop lk mx title (made @ [?q]) (queries + 1) as"
        by (simp add: Let_def)
      from Cons.IH[where made = "made @ [?q]" and queries = "queries + 1"] obtain k where
        kk: "k \<le> nat (max 1 (mx - (queries + 1) + 1))
        \<and> fst (one_author_loop lk mx title (made @ [?q]) (queries + 1) as)
           = (made @ [?q]) @ map (\<lambda>a. (Assigned (Some (lastname a)), title)) (take k as)
        \<and> (snd (one_author_loop lk mx title (made @ [?q]) (queries + 1) as) = None
          \<longrightarrow> take k as = take (nat (max 1 (mx - (queries + 1) + 1))) as)" ..
      note k = kk[THEN conjunct1] kk[THEN conjunct2, THEN conjunct1]
        kk[THEN conjunct2, THEN conjunct2]
      have k1: "Suc k \<le> ?K" using k(1) K by linarith
      have k2: "fst (one_author_loop lk mx title made queries (a # as))
          = made @ map (\<lambda>a. (Assigned (Some (lastname a)), title)) (take (Suc k) (a # as))"
        using k(2) by (simp only: step take_Suc_Cons list.map append_assoc append_Cons append_Nil)
      have k3: "snd (one_author_loop lk mx title made queries (a # as)) = None
          \<longrightarrow> take (Suc k) (a # as) = take ?K (a # as)"
        using k(3) by (simp only: step K take_Suc_Cons) simp
      from k1 k2 k3 show ?thesis by (intro exI[of _ "Suc k"] conjI)
    qed
  qed
qed

lemma loop_never_found:
  "\<forall>made q. lk made q = Inr None \<Longrightarrow> snd (one_author_loop lk mx title made queries as) = None"
  by (induction as arbitrary: made queries) (auto simp add: Let_def)

lemma loop_no_raise:
  "\<forall>made q. \<exists>r. lk made q = Inr r \<Longrightarrow>
   snd (one_author_loop lk mx title made queries as) \<noteq> Some (Inl e)"
proof (induction as arbitrary: made queries)
  case Nil
  then show ?case by simp
next
  case (Cons a as)
  from Cons.prems obtain r where r: "lk made (Assigned (Some (lastname a)), title) = Inr r" by blast
  show ?case
  proof (cases r)
    case None
    with r Cons.IH[OF Cons.prems] show ?thesis by (simp add: Let_def)
  next
    case (Some v)
    with r show ?thesis by (simp add: Let_def)
  qed
qed

lemma query_both_fields:
  assumes "has_field (self_entry s) ''title''" and "self_entry s ''plain_title'' = Some pt"
    and "has_field (self_entry s) ''author''" and "self_entry s ''plain_author'' = Some pa"
    and "get_authors g pa = Inr as"
  shows "query g lk mx s =
    (case lk [] (Assigned (Some (join_str author_join (map lastname as))), Assigned (Some (strip pt))) of
       Inl e \<Rightarrow> ([(Assigned (Some (join_str author_join (map lastname as))), Assigned (Some (strip pt)))], Inl e)
     | Inr (Some found) \<Rightarrow>
         ([(Assigned (Some (join_str author_join (map lastname as))), Assigned (Some (strip pt)))], Inr (Some found))
     | Inr None \<Rightarrow>
         (case (if 1 < length as
                then one_author_loop lk mx (Assigned (Some (strip pt)))
                  [(Assigned (Some (join_str author_join (map lastname as))), Assigned (Some (strip pt)))] 1 as
                else ([(Assigned (Some (join_str author_join (map lastname as))), Assigned (Some (strip pt)))], None)) of
            (made, Some r) \<Rightarrow> (made, r)
          | (made, None) \<Rightarrow>
              (made @ [(Assigned None, Assigned (Some (strip pt)))],
               lk made (Assigned None, Assigned (Some (strip pt))))))"
proof -
  let ?q1 = "(Assigned (Some (join_str author_join (map lastname as))), Assigned (Some (strip pt)))"
  have T: "query_title_attr s = Inr (Assigned (Some (strip pt)))"
    using assms by (simp add: query_title_attr_def)
  have A: "query_author_attr g s
      = Inr (Assigned as, Assigned (Some (join_str author_join (map lastname as))))"
    using assms by (simp add: query_author_attr_def)
  have N: "no_query_data (Assigned (Some (strip pt)))
      (Assigned (Some (join_str author_join (map lastname as)))) = Inr False"
    by (simp add: no_query_data_def)
  show ?thesis
  proof (cases "lk [] ?q1")
    case (Inl e)
    with T A N show ?thesis by (simp add: query_def)
  next
    case (Inr r)
    show ?thesis
    proof (cases r)
      case (Some v)
      with Inr T A N show ?thesis by (simp add: query_def)
    next
      case None
      with Inr T A N show ?thesis
        by (simp add: query_def title_only_query_def split: prod.splits option.splits)
    qed
  qed
qed

lemma query_order:
  assumes "has_field (self_entry s) ''title''" and "self_entry s ''plain_title'' = Some pt"
    and "has_field (self_entry s) ''author''" and "self_entry s ''plain_author'' = Some pa"
    and "get_authors g pa = Inr as"
  shows "prefix (fst (query g lk mx s))
      ((Assigned (Some (join_str author_join (map lastname as))), Assigned (Some (strip pt)))
       # (if 1 < length as
          then map (\<lambda>a. (Assigned (Some (lastname a)), Assigned (Some (strip pt))))
                 (take (nat (max 1 mx)) as)
          else [])
       @ [(Assigned None, Assigned (Some (strip pt)))])
    \<and> ((\<forall>made q. lk made q = Inr None) \<longrightarrow>
        query g lk mx s =
         ((Assigned (Some (join_str author_join (map lastname as))), Assigned (Some (strip pt)))
          # (if 1 < length as
             then map (\<lambda>a. (Assigned (Some (lastname a)), Assigned (Some (strip pt))))
                    (take (nat (max 1 mx)) as)
             else [])
          @ [(Assigned None, Assigned (Some (strip pt)))], Inr None))
    \<and> ((\<forall>made q. \<exists>r. lk made q = Inr r) \<longrightarrow> (\<exists>r. snd (query g lk mx s) = Inr r))"
proof -
  let ?T = "Assigned (Some (strip pt)) :: string option slot"
  let ?q1 = "(Assigned (Some (join_str author_join (map lastname as))), ?T)"
  let ?f = "\<lambda>a. (Assigned (Some (lastname a)), ?T)"
  let ?last = "(Assigned None, ?T) :: shape"
  let ?K = "nat (max 1 mx)"
  let ?lp = "one_author_loop lk mx ?T [?q1] 1 as"
  note q = query_both_fields[OF assms, of lk mx]
  from loop_trace[of mx 1 lk ?T "[?q1]" as] obtain k where
    kk: "k \<le> nat (max 1 (mx - 1 + 1)) \<and> fst ?lp = [?q1] @ map ?f (take k as)
       \<and> (snd ?lp = None \<longrightarrow> take k as = take (nat (max 1 (mx - 1 + 1))) as)" ..
  have k: "k \<le> ?K" "fst ?lp = [?q1] @ map ?f (take k as)"
       "snd ?lp = None \<longrightarrow> take k as = take ?K as"
    using kk by simp_all
  have "take k as = take k (take ?K as)" using k(1) by (simp add: min.absorb1)
  then have "prefix (take k as) (take ?K as)" by (metis take_is_prefix)
  then have pre: "prefix (map ?f (take k as)) (map ?f (take ?K as))"
    by (rule map_mono_prefix)
  have A: "prefix (fst (query g lk mx s))
      (?q1 # (if 1 < length as then map ?f (take ?K as) else []) @ [?last])"
  proof (cases "lk [] ?q1 = Inr None")
    case False
    then have "fst (query g lk mx s) = [?q1]"
      unfolding q by (auto split: sum.splits option.splits)
    then show ?thesis by simp
  next
    case L: True
    show ?thesis
    proof (cases "1 < length as")
      case False
      with L show ?thesis unfolding q by simp
    next
      case True
      obtain made r where lp: "?lp = (made, r)" by (cases ?lp)
      show ?thesis
      proof (cases r)
        case None
        with lp k have "made = ?q1 # map ?f (take ?K as)" by simp
        with L True lp None show ?thesis unfolding q by simp
      next
        case (Some x)
        with lp k have "made = ?q1 # map ?f (take k as)" by simp
        with L True lp Some pre show ?thesis unfolding q by (simp add: prefix_append)
      qed
    qed
  qed
  have B: "(\<forall>made q. lk made q = Inr None) \<longrightarrow>
        query g lk mx s = (?q1 # (if 1 < length as then map ?f (take ?K as) else []) @ [?last], Inr None)"
  proof
    assume never: "\<forall>made q. lk made q = Inr None"
    from loop_never_found[OF never, of mx ?T "[?q1]" 1 as] have "snd ?lp = None" .
    with k have "?lp = (?q1 # map ?f (take ?K as), None)" by (simp add: prod_eq_iff)
    with never show "query g lk mx s
        = (?q1 # (if 1 < length as then map ?f (take ?K as) else []) @ [?last], Inr None)"
      unfolding q by simp
  qed
  have C: "(\<forall>made q. \<exists>r. lk made q = Inr r) \<longrightarrow> (\<exists>r. snd (query g lk mx s) = Inr r)"
  proof
    assume total: "\<forall>made q. \<exists>r. lk made q = Inr r"
    from loop_no_raise[OF total, of mx ?T "[?q1]" 1 as]
    have nr: "\<And>e. snd ?lp \<noteq> Some (Inl e)" .
    from total obtain r1 where r1: "lk [] ?q1 = Inr r1" by blast
    obtain made r where lp: "?lp = (made, r)" by (cases ?lp)
    from total obtain r2 where r2: "lk made ?last = Inr r2" by blast
    from total obtain r3 where r3: "lk [?q1] ?last = Inr r3" by blast
    from nr lp have r: "r = None \<or> (\<exists>x. r = Some (Inr x))"
      by (cases r) (auto intro: sum.exhaust)
    show "\<exists>r. snd (query g lk mx s) = Inr r"
      unfolding q using r1 r2 r3 lp r
      by (cases r1) (auto split: option.splits)
  qed
  from A B C show ?thesis by (intro conjI)
qed

subsection \<open>The function under the decorator, and bodies the decoder rejects\<close>

lemma count_entries_fold:
  "fold (\<lambda>db count. count + int (length (get_entries db))) dbs n
     = n + int (length (concat (map get_entries dbs)))"
  by (induction dbs arbitrary: n) simp_all

lemma count_entries_body_total:
  "count_entries_body self = int (length (concat (map get_entries (bibdatabases self))))"
  by (simp add: count_entries_body_def count_entries_fold)

lemma get_results_not_json:
  "utf8_valid (map of_char data) \<Longrightarrow> json_decode data = Inl JSONDecodeError \<Longrightarrow>
   get_results json_decode get_results_json data = Inr None
   \<and> handle_output (get_results json_decode get_results_json) get_title get_value str_similar
        entry data = Inr None"
  by (simp add: get_results_def bytes_decode_def handle_output_def)

section \<open>AbstractMultipleLookup.query\<close>

text \<open>
  Claim C1. \<open>query\<close> is to check that the title and author fields are present before it
  reads what depends on them: with a title and no author it should run down to the
  title-only query, and with neither it should return \<open>None\<close>, without raising. The code
  does neither. For an entry with a title and no author whose first lookup finds
  nothing, \<open>len(authors)\<close> reads a local that was never assigned and \<open>query\<close> raises
  \<open>UnboundLocalError\<close> after that one lookup, before any title-only query. For an entry
  with neither field, \<open>self.title\<close> was never assigned and the test on line 167 raises
  \<open>AttributeError\<close>.
\<close>

theorem query_missing_author_raises:
  "query getnames (\<lambda>made q. Inr None) mx
      (init (Map.empty(''title'' \<mapsto> ''T'', ''plain_title'' \<mapsto> ''T'', ''ID'' \<mapsto> ''k'')))
     = ([(Unassigned, Assigned (Some ''T''))], Inl UnboundLocalError)
   \<and> query getnames lk mx (init Map.empty) = ([], Inl AttributeError)"
  by (simp add: query_def init_def query_title_attr_def query_author_attr_def
      no_query_data_def has_field_def strip_def whitespace_def)

text \<open>
  Claim C3. \<open>query\<close> is to make at most \<open>max_search_queries\<close> (10) lookups in all. The
  counter \<open>queries\<close> starts at 1, for the lookup with all authors already made, and is
  compared after each single-author lookup with \<open>queries > max_search_queries\<close>: the loop
  ends one lookup late, and the title-only lookup that follows is not counted. For an
  entry with a title and ten authors and a service that never finds anything, \<open>query\<close>
  makes twelve lookups.
\<close>

theorem query_ten_authors_twelve_lookups:
  "query getnames_formatted (\<lambda>made q. Inr None) max_search_queries
     (init (Map.empty(''title'' \<mapsto> ''T'', ''plain_title'' \<mapsto> ''T'',
        ''author'' \<mapsto> ''A, a and B, b and C, c and D, d and E, e and F, f and G, g and H, h and I, i and J, j'',
        ''plain_author'' \<mapsto> ''A, a and B, b and C, c and D, d and E, e and F, f and G, g and H, h and I, i and J, j'')))
   = ([(Assigned (Some ''A B C D E F G H I J''), Assigned (Some ''T'')),
       (Assigned (Some ''A''), Assigned (Some ''T'')),
       (Assigned (Some ''B''), Assigned (Some ''T'')),
       (Assigned (Some ''C''), Assigned (Some ''T'')),
       (Assigned (Some ''D''), Assigned (Some ''T'')),
       (Assigned (Some ''E''), Assigned (Some ''T'')),
       (Assigned (Some ''F''), Assigned (Some ''T'')),
       (Assigned (Some ''G''), Assigned (Some ''T'')),
       (Assigned (Some ''H''), Assigned (Some ''T'')),
       (Assigned (Some ''I''), Assigned (Some ''T'')),
       (Assigned (Some ''J''), Assigned (Some ''T'')),
       (Assigned None, Assigned (Some ''T''))],
      Inr None)
   \<and> max_search_queries = 10"
  by (simp add: query_def init_def query_title_attr_def query_author_attr_def
      no_query_data_def has_field_def strip_def whitespace_def get_authors_def
      getnames_formatted_def replace_newline_def author_join_def max_search_queries_def
      title_only_query_def)

section \<open>The order of the written entries\<close>

text \<open>
  Claim C2, as amended. For a database whose entries all have an entry type and an
  \<open>ID\<close>, \<open>write\<close> returns, and the entries it emits are the entries of the database
  with their \<open>plain_\<close> fields removed, each as often as it occurs, ordered by the key
  (author, year, title) that the module sets on the writer; entries with the same key
  keep their input order; and the emitted order is the input order exactly when the input
  is already ordered by that key. This holds whatever \<open>str.lower()\<close> returns on strings
  outside ASCII.
\<close>

theorem write_database_sorted_permutation:
  assumes "list_all writable (entries db)"
  shows "\<exists>out. write_database U db = Inr out
     \<and> mset out = mset (map remove_plain_fields (entries db))
     \<and> sorted (map (entry_sort_key U order_entries_by) out)
     \<and> (\<forall>k. filter (\<lambda>e. entry_sort_key U order_entries_by e = k) out
            = filter (\<lambda>e. entry_sort_key U order_entries_by e = k)
                (map remove_plain_fields (entries db)))
     \<and> ((out = map remove_plain_fields (entries db))
          = sorted (map (entry_sort_key U order_entries_by) (entries db)))"
proof -
  let ?key = "entry_sort_key U order_entries_by"
  let ?ins = "map remove_plain_fields (entries db)"
  let ?out = "sort_key ?key ?ins"
  from assms have "list_all writable ?ins"
    by (simp add: list_all_iff writable_remove_plain)
  then have out: "write_database U db = Inr ?out"
    by (simp add: write_database_def writer_write_writable)
  have perm: "mset ?out = mset ?ins" by (rule mset_sort)
  have srt: "sorted (map ?key ?out)" by (rule sorted_sort_key)
  have stable: "\<forall>k. filter (\<lambda>e. ?key e = k) ?out = filter (\<lambda>e. ?key e = k) ?ins"
    by (simp add: sort_key_stable)
  have same: "(?out = ?ins) = sorted (map ?key (entries db))"
  proof
    assume "?out = ?ins"
    with srt have "sorted (map ?key ?ins)" by simp
    then show "sorted (map ?key (entries db))" by (simp only: map_key_remove_plain)
  next
    assume "sorted (map ?key (entries db))"
    then have "sorted (map ?key ?ins)" by (simp only: map_key_remove_plain)
    then show "?out = ?ins" by (rule sort_key_id_if_sorted)
  qed
  from out perm srt stable same show ?thesis by (intro exI[of _ ?out] conjI)
qed

theorem write_database_sorted_permutation_witness:
  "\<forall>unicode_lower.
     map_sum id (map (\<lambda>e. (e ''ID'', e ''author'', e ''plain_author'')))
       (write_database unicode_lower
         \<lparr>entries = [Map.empty(''ENTRYTYPE'' \<mapsto> ''article'', ''ID'' \<mapsto> ''k1'', ''author'' \<mapsto> ''Abe'',
                        ''plain_author'' \<mapsto> ''Abe''),
                     Map.empty(''ENTRYTYPE'' \<mapsto> ''book'', ''ID'' \<mapsto> ''k2'', ''author'' \<mapsto> ''Zed'')]\<rparr>)
     = Inr [(Some ''k1'', Some ''Abe'', None), (Some ''k2'', Some ''Zed'', None)]"
proof
  fix U :: "string \<Rightarrow> string"
  let ?e1 = "Map.empty(''ENTRYTYPE'' \<mapsto> ''article'', ''ID'' \<mapsto> ''k1'', ''author'' \<mapsto> ''Abe'',
      ''plain_author'' \<mapsto> ''Abe'')"
  let ?e2 = "Map.empty(''ENTRYTYPE'' \<mapsto> ''book'', ''ID'' \<mapsto> ''k2'', ''author'' \<mapsto> ''Zed'')"
  let ?db = "\<lparr>entries = [?e1, ?e2]\<rparr>"
  have w: "list_all writable (entries ?db)" by (simp add: writable_def)
  have k1: "entry_sort_key U order_entries_by ?e1 = [''abe'', [], []]"
    by (simp add: entry_sort_key_def order_entries_by_def str_lower_def is_ascii_def
        lower_abe_zed)
  have k2: "entry_sort_key U order_entries_by ?e2 = [''zed'', [], []]"
    by (simp add: entry_sort_key_def order_entries_by_def str_lower_def is_ascii_def
        lower_abe_zed)
  have s: "sorted (map (entry_sort_key U order_entries_by) (entries ?db))"
    by (simp add: k1 k2)
  from write_database_sorted_permutation[OF w, of U] obtain out where
    o: "write_database U ?db = Inr out
     \<and> mset out = mset (map remove_plain_fields (entries ?db))
     \<and> sorted (map (entry_sort_key U order_entries_by) out)
     \<and> (\<forall>k. filter (\<lambda>e. entry_sort_key U order_entries_by e = k) out
            = filter (\<lambda>e. entry_sort_key U order_entries_by e = k)
                (map remove_plain_fields (entries ?db)))
     \<and> ((out = map remove_plain_fields (entries ?db))
          = sorted (map (entry_sort_key U order_entries_by) (entries ?db)))" ..
  from o s have "out = map remove_plain_fields (entries ?db)" by simp
  with o have "write_database U ?db = Inr [remove_plain_fields ?e1, remove_plain_fields ?e2]"
    by simp
  then show "map_sum id (map (\<lambda>e. (e ''ID'', e ''author'', e ''plain_author'')))
       (write_database U ?db)
     = Inr [(Some ''k1'', Some ''Abe'', None), (Some ''k2'', Some ''Zed'', None)]"
    by (simp add: remove_plain_fields_def PLAIN_PREFIX_def)
qed

text \<open>
  Against the claim as stated: three entries given in the order \<open>k1\<close>, \<open>k2\<close>, \<open>k3\<close>
  are written in the order \<open>k3\<close>, \<open>k2\<close>, \<open>k1\<close>: the authors are the same in lower
  case, the year 1999 comes before 2001, and the title alpha before beta.
\<close>

theorem write_database_reorders:
  "\<forall>unicode_lower.
     map_sum id (map (\<lambda>e. e ''ID''))
       (write_database unicode_lower
         \<lparr>entries =
            [Map.empty(''ENTRYTYPE'' \<mapsto> ''article'', ''ID'' \<mapsto> ''k1'', ''author'' \<mapsto> ''Abe'',
               ''year'' \<mapsto> ''2001'', ''title'' \<mapsto> ''beta''),
             Map.empty(''ENTRYTYPE'' \<mapsto> ''article'', ''ID'' \<mapsto> ''k2'', ''author'' \<mapsto> ''abe'',
               ''year'' \<mapsto> ''2001'', ''title'' \<mapsto> ''Alpha''),
             Map.empty(''ENTRYTYPE'' \<mapsto> ''article'', ''ID'' \<mapsto> ''k3'', ''author'' \<mapsto> ''Abe'',
               ''year'' \<mapsto> ''1999'', ''title'' \<mapsto> ''Zeta'')]\<rparr>)
     = Inr [Some ''k3'', Some ''k2'', Some ''k1'']"
proof
  fix U :: "string \<Rightarrow> string"
  let ?e1 = "Map.empty(''ENTRYTYPE'' \<mapsto> ''article'', ''ID'' \<mapsto> ''k1'', ''author'' \<mapsto> ''Abe'',
             ''year'' \<mapsto> ''2001'', ''title'' \<mapsto> ''beta'')"
  let ?e2 = "Map.empty(''ENTRYTYPE'' \<mapsto> ''article'', ''ID'' \<mapsto> ''k2'', ''author'' \<mapsto> ''abe'',
             ''year'' \<mapsto> ''2001'', ''title'' \<mapsto> ''Alpha'')"
  let ?e3 = "Map.empty(''ENTRYTYPE'' \<mapsto> ''article'', ''ID'' \<mapsto> ''k3'', ''author'' \<mapsto> ''Abe'',
             ''year'' \<mapsto> ''1999'', ''title'' \<mapsto> ''Zeta'')"
  have k1: "entry_sort_key U order_entries_by (remove_plain_fields ?e1) = [''abe'', ''2001'', ''beta'']"
    unfolding key_remove_plain
    by (simp add: entry_sort_key_def order_entries_by_def str_lower_def is_ascii_def
        lower_examples)
  have k2: "entry_sort_key U order_entries_by (remove_plain_fields ?e2) = [''abe'', ''2001'', ''alpha'']"
    unfolding key_remove_plain
    by (simp add: entry_sort_key_def order_entries_by_def str_lower_def is_ascii_def
        lower_examples)
  have k3: "entry_sort_key U order_entries_by (remove_plain_fields ?e3) = [''abe'', ''1999'', ''zeta'']"
    unfolding key_remove_plain
    by (simp add: entry_sort_key_def order_entries_by_def str_lower_def is_ascii_def
        lower_examples)
  have w: "list_all writable
      [remove_plain_fields ?e1, remove_plain_fields ?e2, remove_plain_fields ?e3]"
    by (simp add: writable_remove_plain) (simp add: writable_def)
  have "sort_key (entry_sort_key U order_entries_by)
        [remove_plain_fields ?e1, remove_plain_fields ?e2, remove_plain_fields ?e3]
      = [remove_plain_fields ?e3, remove_plain_fields ?e2, remove_plain_fields ?e1]"
    by (simp add: k1 k2 k3)
  with w have "write_database U \<lparr>entries = [?e1, ?e2, ?e3]\<rparr>
      = Inr [remove_plain_fields ?e3, remove_plain_fields ?e2, remove_plain_fields ?e1]"
    by (simp add: write_database_def writer_write_writable)
  then show "map_sum id (map (\<lambda>e. e ''ID'')) (write_database U \<lparr>entries = [?e1, ?e2, ?e3]\<rparr>)
      = Inr [Some ''k3'', Some ''k2'', Some ''k1'']"
    by (simp add: remove_plain_fields_def PLAIN_PREFIX_def)
qed

section \<open>AbstractSearchLookup.handle_output\<close>

text \<open>
  Claim C4, as amended. When the response parses into a sequence of records and the entry
  has a \<open>plain_title\<close>, \<open>handle_output\<close> returns the value of the first record, in the
  order of the response, whose title is not \<open>None\<close> and similar to the entry's plain
  title and whose value is not \<open>None\<close>; it returns \<open>None\<close> when there is no such
  record. No score is computed.
\<close>

theorem handle_output_first_similar:
  assumes "results_of data = Inr (Some results)"
    and "entry ''plain_title'' = Some plain_title"
  shows "handle_output results_of get_title get_value str_similar entry data =
     Inr (case find (\<lambda>res. (case get_title res of None \<Rightarrow> False
                                | Some t \<Rightarrow> str_similar t plain_title)
                           \<and> get_value res \<noteq> None) results of
            None \<Rightarrow> None
          | Some res \<Rightarrow> get_value res)"
  using assms by (simp add: handle_output_def search_results_find)

theorem handle_output_first_similar_witness:
  "handle_output (\<lambda>data. Inr (Some [(''Another Paper'', ''10.1/zero''), (''my paper'', ''10.1/first''),
                                     (''My Paper'', ''10.1/second'')]))
      (\<lambda>r. Some (fst r)) (\<lambda>r. Some (snd r)) (\<lambda>a b. lower a = lower b)
      (Map.empty(''plain_title'' \<mapsto> ''My Paper'')) ''{}''
    = Inr (Some ''10.1/first'')"
proof -
  let ?rs = "[(''Another Paper'', ''10.1/zero''), (''my paper'', ''10.1/first''), (''My Paper'', ''10.1/second'')]"
  let ?e = "Map.empty(''plain_title'' \<mapsto> ''My Paper'')"
  have h1: "(\<lambda>data::bytes. (Inr (Some ?rs) :: error + (string \<times> string) list option)) ''{}'' = Inr (Some ?rs)" by simp
  have h2: "?e ''plain_title'' = Some ''My Paper''" by simp
  have r: "(case find (\<lambda>res. (case (\<lambda>r. Some (fst r)) res of None \<Rightarrow> False
                                | Some t \<Rightarrow> (\<lambda>a b. lower a = lower b) t ''My Paper'')
                           \<and> (\<lambda>r. Some (snd r)) res \<noteq> None) ?rs of
            None \<Rightarrow> None
          | Some res \<Rightarrow> (\<lambda>r. Some (snd r)) res) = Some ''10.1/first''"
    by code_simp
  from handle_output_first_similar[where results_of = "\<lambda>data. Inr (Some ?rs)" and data = "''{}''"
      and results = ?rs and entry = ?e and plain_title = "''My Paper''"
      and get_title = "\<lambda>r. Some (fst r)" and str_similar = "\<lambda>a b. lower a = lower b"
      and get_value = "\<lambda>r. Some (snd r)", OF h1 h2] r
  show ?thesis by simp
qed

text \<open>
  Against the claim as stated: of two records with similar titles, \<open>handle_output\<close>
  returns the value of the first, where selection by score returns the value of the
  second, which scores higher (its title is equal to the entry's, not only similar).
\<close>

theorem handle_output_not_best_scoring:
  "handle_output (\<lambda>data. Inr (Some [(''my paper'', ''10.1/first''), (''My Paper'', ''10.1/second'')]))
      (\<lambda>r. Some (fst r)) (\<lambda>r. Some (snd r)) (\<lambda>a b. lower a = lower b)
      (Map.empty(''plain_title'' \<mapsto> ''My Paper'')) ''{}''
    = Inr (Some ''10.1/first'')
   \<and> best_scoring (\<lambda>r. if fst r = ''My Paper'' then 2
                         else if lower (fst r) = lower ''My Paper'' then 1 else 0) 1
      (\<lambda>r. Some (snd r)) [(''my paper'', ''10.1/first''), (''My Paper'', ''10.1/second'')]
    = Some ''10.1/second''"
  by code_simp

section \<open>AbstractBaseLookup.lookup\<close>

text \<open>
  Claim C5, as amended. \<open>lookup\<close> returns \<open>None\<close> without reading the body exactly when
  the status code is not 200; for status 200 the body is read and passed to
  \<open>handle_output\<close>, whose result is returned. A timeout and a name-resolution error also
  give \<open>None\<close>.
\<close>

theorem lookup_only_status_200:
  "lookup handle (Response status data)
     = (if status = 200 then (Some data, handle data) else (None, Inr None))
   \<and> ((fst (lookup handle (Response status data)) = None) = (status \<noteq> 200))
   \<and> lookup handle SocketTimeout = (None, Inr None)
   \<and> lookup handle SocketGaierror = (None, Inr None)"
  by (simp add: lookup_def)

theorem lookup_only_status_200_witness:
  "lookup (\<lambda>data. Inr (Some data)) (Response 200 ''{}'') = (Some ''{}'', Inr (Some ''{}''))
   \<and> lookup (\<lambda>data. Inr (Some data)) (Response 404 ''{}'') = (None, Inr None)"
  using lookup_only_status_200[of "\<lambda>data. Inr (Some data)" 200 "''{}''"]
    lookup_only_status_200[of "\<lambda>data. Inr (Some data)" 404 "''{}''"]
  by simp

text \<open>
  Against the claim as stated: status 201 is a 2xx code, and the body is neither read nor
  handled.
\<close>

theorem lookup_status_201_no_response:
  "success_2xx 201
   \<and> lookup (\<lambda>data. Inr (Some data)) (Response 201 ''{}'') = (None, Inr None)"
  by (simp add: success_2xx_def lookup_def)

section \<open>AbstractJSONSearchLookup.get_results\<close>

text \<open>
  Claim C6. A body that does not decode as JSON is to give no records and \<open>None\<close>, with no
  exception. The code catches \<open>JSONDecodeError\<close> only: for the one-byte body \<open>0xFF\<close>,
  which is not UTF-8, \<open>data.decode()\<close> raises \<open>UnicodeDecodeError\<close>, and the exception
  leaves \<open>get_results\<close>, \<open>handle_output\<close> and \<open>lookup\<close>.
\<close>

theorem get_results_invalid_utf8_raises:
  "get_results json_decode get_results_json [CHR 0xFF] = Inl UnicodeDecodeError
   \<and> lookup (handle_output (get_results json_decode get_results_json)
               get_title get_value str_similar entry) (Response 200 [CHR 0xFF])
     = (Some [CHR 0xFF], Inl UnicodeDecodeError)"
  by (simp add: lookup_def handle_output_def get_results_def bytes_decode_def)

section \<open>BibtexAutocomplete\<close>

text \<open>
  Claim C7. \<open>get_dois\<close> never changes the \<open>ID\<close> of an entry, changes no field of an
  entry that has a non-empty \<open>doi\<close>, and changes at most the \<open>doi\<close> field of any other
  entry. The entries before are those \<open>iter_entries\<close> yields; the entries after are the
  same entries when \<open>get_dois\<close> ends, however it ends.
\<close>

theorem get_dois_frame:
  "list_all2 (\<lambda>before after. after ''ID'' = before ''ID''
       \<and> (has_field before ''doi'' \<longrightarrow> after = before)
       \<and> (\<forall>field. field \<noteq> ''doi'' \<longrightarrow> after field = before field))
     (fst (iter_entries self)) (fst (get_dois DOI_lookups self))"
proof -
  have "fst (get_dois DOI_lookups self) = fst (get_dois_loop DOI_lookups (fst (iter_entries self)))"
    by (simp add: get_dois_def split: prod.splits option.splits)
  then show ?thesis by (simp only: get_dois_loop_frame)
qed

theorem get_dois_frame_witness:
  "map (\<lambda>e. (e ''ID'', e ''doi'', e ''title''))
      (fst (iter_entries \<lparr>bibdatabases = [\<lparr>entries = [Map.empty(''ID'' \<mapsto> ''a'', ''doi'' \<mapsto> ''10.5/old'', ''title'' \<mapsto> ''A'')]\<rparr>,
                                            \<lparr>entries = [Map.empty(''ID'' \<mapsto> ''b'', ''title'' \<mapsto> ''B'')]\<rparr>],
                           attributes = Map.empty\<rparr>))
     = [(Some ''a'', Some ''10.5/old'', Some ''A''), (Some ''b'', None, Some ''B'')]
   \<and> map (\<lambda>e. (e ''ID'', e ''doi'', e ''title''))
      (fst (get_dois [\<lambda>e. Inr None, \<lambda>e. Inr (Some ''10.1/new'')]
         \<lparr>bibdatabases = [\<lparr>entries = [Map.empty(''ID'' \<mapsto> ''a'', ''doi'' \<mapsto> ''10.5/old'', ''title'' \<mapsto> ''A'')]\<rparr>,
                           \<lparr>entries = [Map.empty(''ID'' \<mapsto> ''b'', ''title'' \<mapsto> ''B'')]\<rparr>],
          attributes = Map.empty\<rparr>))
     = [(Some ''a'', Some ''10.5/old'', Some ''A''), (Some ''b'', Some ''10.1/new'', Some ''B'')]
   \<and> list_all2 (\<lambda>before after. after ''ID'' = before ''ID''
       \<and> (has_field before ''doi'' \<longrightarrow> after = before)
       \<and> (\<forall>field. field \<noteq> ''doi'' \<longrightarrow> after field = before field))
      (fst (iter_entries \<lparr>bibdatabases = [\<lparr>entries = [Map.empty(''ID'' \<mapsto> ''a'', ''doi'' \<mapsto> ''10.5/old'', ''title'' \<mapsto> ''A'')]\<rparr>,
                                            \<lparr>entries = [Map.empty(''ID'' \<mapsto> ''b'', ''title'' \<mapsto> ''B'')]\<rparr>],
                           attributes = Map.empty\<rparr>))
      (fst (get_dois [\<lambda>e. Inr None, \<lambda>e. Inr (Some ''10.1/new'')]
         \<lparr>bibdatabases = [\<lparr>entries = [Map.empty(''ID'' \<mapsto> ''a'', ''doi'' \<mapsto> ''10.5/old'', ''title'' \<mapsto> ''A'')]\<rparr>,
                           \<lparr>entries = [Map.empty(''ID'' \<mapsto> ''b'', ''title'' \<mapsto> ''B'')]\<rparr>],
          attributes = Map.empty\<rparr>))"
proof -
  let ?self = "\<lparr>bibdatabases = [\<lparr>entries = [Map.empty(''ID'' \<mapsto> ''a'', ''doi'' \<mapsto> ''10.5/old'', ''title'' \<mapsto> ''A'')]\<rparr>,
                           \<lparr>entries = [Map.empty(''ID'' \<mapsto> ''b'', ''title'' \<mapsto> ''B'')]\<rparr>],
          attributes = Map.empty\<rparr>"
  let ?L = "[\<lambda>e::entry. Inr None, \<lambda>e. Inr (Some ''10.1/new'')] :: (entry \<Rightarrow> error + string option) list"
  have a: "map (\<lambda>e. (e ''ID'', e ''doi'', e ''title'')) (fst (iter_entries ?self))
     = [(Some ''a'', Some ''10.5/old'', Some ''A''), (Some ''b'', None, Some ''B'')]"
    by (simp add: iter_entries_def get_entries_def)
  have b: "map (\<lambda>e. (e ''ID'', e ''doi'', e ''title'')) (fst (get_dois ?L ?self))
     = [(Some ''a'', Some ''10.5/old'', Some ''A''), (Some ''b'', Some ''10.1/new'', Some ''B'')]"
    by (simp add: get_dois_def iter_entries_def get_entries_def generator_raise_def has_field_def)
  from a b get_dois_frame[of ?self ?L] show ?thesis by blast
qed

section \<open>get_authors\<close>

text \<open>
  What \<open>get_authors\<close> returns when \<open>getnames\<close> returns names of the form
  \<open>last, first\<close>; lemma \<open>get_authors_raises_without_separator\<close> is the converse.
\<close>

lemma get_authors_formats_names:
  assumes "getnames (map strip (split_str '' and '' (replace_newline author))) = Inr names"
    and "\<forall>n \<in> set names. \<exists>l r. n = l @ '', '' @ r"
  shows "get_authors getnames author =
     Inr (map (\<lambda>n. \<lparr>lastname = split_str '', '' n ! 0,
                      firstnames = Some (split_str '', '' n ! 1)\<rparr>) names)"
  using assms by (simp add: get_authors_def format_authors_ok)

text \<open>
  Claim C8. \<open>get_authors\<close> is to return a list of authors for every author string,
  without raising. It calls \<open>getnames\<close> with no handler around the call, so an
  exception of \<open>getnames\<close> leaves \<open>get_authors\<close>. For the author strings \<open>jr\<close> and
  \<open>jr\<close> between white space, \<open>get_authors\<close> hands the one name \<open>jr\<close> to \<open>getnames\<close>;
  the library takes the last word of a name as the last name and, when that word is
  \<open>jr\<close>, pops the list of first names, which is empty here: \<open>IndexError\<close>.
\<close>

theorem get_authors_jr_raises:
  assumes "getnames [''jr''] = Inl e"
  shows "get_authors getnames ''jr'' = Inl e
    \<and> get_authors getnames [CHR 0x20, CHR ''j'', CHR ''r'', CHR 0x0A] = Inl e"
  using assms by (simp add: get_authors_def replace_newline_def strip_def whitespace_def)

theorem get_authors_jr_raises_witness:
  "get_authors (\<lambda>names. if names = [''jr''] then Inl IndexError else Inr names) ''jr''
     = Inl IndexError
   \<and> get_authors (\<lambda>names. if names = [''jr''] then Inl IndexError else Inr names)
       [CHR 0x20, CHR ''j'', CHR ''r'', CHR 0x0A]
     = Inl IndexError"
  using get_authors_jr_raises[of "\<lambda>names. if names = [''jr''] then Inl IndexError else Inr names"
      IndexError]
  by simp

section \<open>The class body and the generator of BibtexAutocomplete\<close>

text \<open>
  Claim C9. \<open>count_entries\<close> is to be callable and to return the number of entries. The
  class body applies \<open>memoize("_total")\<close> to the function, and \<open>memoize\<close> returns
  \<open>None\<close>: the application raises \<open>TypeError\<close>, and the name is never bound to a
  function.
\<close>

theorem count_entries_not_callable:
  "count_entries = Inl TypeError"
  by (simp add: count_entries_def memoize_def call_def)

text \<open>
  Claim C10. Exhausting \<open>iter_entries\<close> is to end without an exception. The generator
  yields the entries of each database in order and then raises \<open>StopIteration\<close> in its
  own body, which reaches the caller as \<open>RuntimeError\<close>: \<open>count_missing\<close> and
  \<open>get_dois\<close> never return normally, whatever the databases.
\<close>

theorem iter_entries_raises_runtime_error:
  "iter_entries self = (concat (map entries (bibdatabases self)), Some RuntimeError)
   \<and> count_missing self field = Inl RuntimeError
   \<and> snd (get_dois DOI_lookups self) \<noteq> Inr ()
   \<and> count_missing \<lparr>bibdatabases = [], attributes = Map.empty\<rparr> ''doi'' = Inl RuntimeError"
  by (simp add: iter_entries_def generator_raise_def get_entries_def[abs_def]
      count_missing_def get_dois_def split: prod.splits option.splits)

end
